theory Spec2Isabelle
  imports Main "HOL-Library.AList" "HOL-Library.Sublist" "HOL-Library.Multiset"
    "HOL-Library.List_Lexorder" "HOL-Library.Char_ord"
begin

section \<open>Sim results\<close>

text \<open>
  The force-sim logic of \<^verbatim>\<open>src/discord/notifier.ts\<close>, as the integration guide quotes it,
  and the scoreboard's \<^verbatim>\<open>createSimMessage\<close> of \<^verbatim>\<open>enhanced_game_channels.ts\<close>.
\<close>

datatype SimResult = FORCE_WIN_HOME | FORCE_WIN_AWAY | FAIR_SIM | NONE

text \<open>
  Modelled from the spec: the enum \<^verbatim>\<open>SimResult\<close> is declared in a module outside these sources; its
  four members are the ones the spec lists, and the string stored for a member is the
  member's name (the three strings \<^verbatim>\<open>createSimMessage\<close> compares with).
\<close>

fun SimResult_value :: "SimResult \<Rightarrow> string" where
  "SimResult_value FORCE_WIN_HOME = ''FORCE_WIN_HOME''"
| "SimResult_value FORCE_WIN_AWAY = ''FORCE_WIN_AWAY''"
| "SimResult_value FAIR_SIM = ''FAIR_SIM''"
| "SimResult_value NONE = ''NONE''"

text \<open>
  Modelled from the spec: the guide quotes the three guarded returns of the classifier and
  nothing after them; the value returned when none of the guards holds (\<^verbatim>\<open>NONE\<close>) and the
  name \<^verbatim>\<open>classify\<close> are the spec's. The two arguments are the arrays of reacting users;
  only their lengths are read.
\<close>

definition classify :: "'u list \<Rightarrow> 'u list \<Rightarrow> SimResult" where
  "classify homeUsers awayUsers =
     (if length homeUsers > 0 \<and> length awayUsers = 0 then FORCE_WIN_HOME
      else if length awayUsers > 0 \<and> length homeUsers = 0 then FORCE_WIN_AWAY
      else if length homeUsers > 0 \<and> length awayUsers > 0 then FAIR_SIM
      else NONE)"

datatype js_error = Error string

text \<open>
  The argument of \<^verbatim>\<open>createSimMessage\<close> is untyped; the function reads its property
  \<^verbatim>\<open>result\<close> and compares it with three string literals by \<^verbatim>\<open>===\<close>. The model takes the
  value of that property, which may be any primitive value. A \<^verbatim>\<open>throw\<close> is the left
  injection.
\<close>

datatype js_value = JSString string | JSNumber int | JSBoolean bool | JSNull | JSUndefined

definition createSimMessage :: "js_value \<Rightarrow> js_error + string" where
  "createSimMessage result =
     (if result = JSString ''FAIR_SIM'' then Inr ''Fair Sim''
      else if result = JSString ''FORCE_WIN_AWAY'' then Inr ''Force Win Away''
      else if result = JSString ''FORCE_WIN_HOME'' then Inr ''Force Win Home''
      else Inl (Error ''Should not have gotten here! from createSimMessage''))"

section \<open>Strings and numbers of the host language\<close>

text \<open>
  Strings are lists of characters. \<^verbatim>\<open>toLowerCase\<close> and \<^verbatim>\<open>toUpperCase\<close> are modelled on
  the ASCII letters, character by character; every other character is left as it is.
\<close>

definition lower_char :: "char \<Rightarrow> char" where
  "lower_char c =
     (case map_of (zip ''ABCDEFGHIJKLMNOPQRSTUVWXYZ'' ''abcdefghijklmnopqrstuvwxyz'') c of
        Some d \<Rightarrow> d | None \<Rightarrow> c)"

definition upper_char :: "char \<Rightarrow> char" where
  "upper_char c =
     (case map_of (zip ''abcdefghijklmnopqrstuvwxyz'' ''ABCDEFGHIJKLMNOPQRSTUVWXYZ'') c of
        Some d \<Rightarrow> d | None \<Rightarrow> c)"

definition toLowerCase :: "string \<Rightarrow> string" where
  "toLowerCase s = map lower_char s"

definition toUpperCase :: "string \<Rightarrow> string" where
  "toUpperCase s = map upper_char s"

text \<open>\<^verbatim>\<open>s.includes(sub)\<close>: \<^verbatim>\<open>sub\<close> occurs in \<^verbatim>\<open>s\<close> as a contiguous run.\<close>

fun includes_str :: "string \<Rightarrow> string \<Rightarrow> bool" where
  "includes_str [] sub = (sub = [])"
| "includes_str (c # cs) sub = (prefix sub (c # cs) \<or> includes_str cs sub)"

text \<open>\<^verbatim>\<open>s.split(' ')\<close>: the pieces between single spaces, empty pieces kept.\<close>

fun split_space :: "string \<Rightarrow> string list" where
  "split_space [] = [[]]"
| "split_space (c # cs) =
     (if c = CHR '' '' then [] # split_space cs
      else (case split_space cs of
              w # ws \<Rightarrow> (c # w) # ws
            | [] \<Rightarrow> [[c]]))"

text \<open>\<^verbatim>\<open>xs.join(sep)\<close>.\<close>

fun join :: "string \<Rightarrow> string list \<Rightarrow> string" where
  "join sep [] = []"
| "join sep [x] = x"
| "join sep (x # y # ys) = x @ sep @ join sep (y # ys)"

text \<open>A count written into a template literal: its decimal digits.\<close>

definition digitChar :: "nat \<Rightarrow> char" where
  "digitChar d = ''0123456789'' ! d"

fun numberToString :: "nat \<Rightarrow> string" where
  "numberToString n =
     (if 10 \<le> n then numberToString (n div 10) @ [digitChar (n mod 10)]
      else [digitChar n])"

text \<open>\<^verbatim>\<open>a || b\<close> on strings and on numbers: the right operand when the left one is falsy.\<close>

definition or_string :: "string \<Rightarrow> string \<Rightarrow> string" where
  "or_string a b = (if a \<noteq> [] then a else b)"

definition or_number :: "int \<Rightarrow> int \<Rightarrow> int" where
  "or_number a b = (if a \<noteq> 0 then a else b)"

section \<open>Teams\<close>

text \<open>
  The fields of \<^verbatim>\<open>Team\<close> that the expansion layer reads. \<^verbatim>\<open>teamName\<close> and
  \<^verbatim>\<open>originalName\<close> are the two properties auto-detection probes on its untyped argument;
  \<^verbatim>\<open>originalDisplayName\<close>, \<^verbatim>\<open>originalNickName\<close> and the flag are the properties the
  enhancement adds. An absent property is \<open>None\<close>.
\<close>

record Team =
  teamId :: int
  displayName :: string
  nickName :: string
  cityName :: string
  abbrName :: string
  divName :: string
  divisionId :: int
  conferenceId :: int
  logoId :: int
  teamName :: "string option"
  originalName :: "string option"
  originalDisplayName :: "string option"
  originalNickName :: "string option"
  isExpansionTeamFlag :: "bool option"

section \<open>The expansion catalog and the mapping registry (expansion\_teams.ts)\<close>

text \<open>
  \<^verbatim>\<open>EXPANSION_TEAMS\<close>, in its later version with the custom logo ids 1001 to 1031: the key
  of each entry and its logo id (the colours are not read by anything modelled here).
\<close>

definition EXPANSION_TEAMS :: "(string \<times> int) list" where
  "EXPANSION_TEAMS =
    [(''Antlers'', 1001), (''Armadillos'', 1002), (''Aviators'', 1003), (''Bisons'', 1004),
     (''Black Knights'', 1005), (''Blues'', 1006), (''Bulls'', 1007), (''Caps'', 1008),
     (''Condors'', 1009), (''Desperados'', 1010), (''Dragons'', 1011),
     (''Dreadnoughts'', 1012), (''Elks'', 1013), (''Golden Eagles'', 1014),
     (''Huskies'', 1015), (''Lumberjacks'', 1016), (''Monarchs'', 1017), (''Mounties'', 1018),
     (''Night Hawks'', 1019), (''Orbits'', 1020), (''Pioneers'', 1021), (''Redwoods'', 1022),
     (''River Hogs'', 1023), (''Sentinels'', 1024), (''Shamrocks'', 1025),
     (''Snowhawks'', 1026), (''Steamers'', 1027), (''Thunderbirds'', 1028), (''Tigers'', 1029),
     (''Voyagers'', 1030), (''Wizards'', 1031)]"

text \<open>
  The property names every object literal inherits from \<^verbatim>\<open>Object.prototype\<close>: the
  \<^verbatim>\<open>in\<close> operator finds them as well as the object's own keys.
\<close>

definition Object_prototype_keys :: "string list" where
  "Object_prototype_keys =
    [''constructor'', ''__defineGetter__'', ''__defineSetter__'', ''hasOwnProperty'',
     ''__lookupGetter__'', ''__lookupSetter__'', ''isPrototypeOf'', ''propertyIsEnumerable'',
     ''toString'', ''valueOf'', ''__proto__'', ''toLocaleString'']"

record ExpansionTeamMapping =
  expansionName :: string
  originalTeamId :: int
  originalTeamName :: string
  mappingDivisionId :: int
  mappingConferenceId :: int

text \<open>
  The module-level \<^verbatim>\<open>Map<number, ExpansionTeamMapping>\<close>, passed explicitly: its entries
  in insertion order. \<^verbatim>\<open>Map.set\<close> replaces the value of a present key where it stands and
  appends an absent one, which is \<^const>\<open>AList.update\<close>.
\<close>

type_synonym MappingStore = "(int \<times> ExpansionTeamMapping) list"

definition registerExpansionTeam ::
  "MappingStore \<Rightarrow> int \<Rightarrow> string \<Rightarrow> string \<Rightarrow> int \<Rightarrow> int \<Rightarrow> MappingStore" where
  "registerExpansionTeam store tid expName originalTeamName' divisionId' conferenceId' =
     AList.update tid
       \<lparr>expansionName = expName, originalTeamId = tid, originalTeamName = originalTeamName',
        mappingDivisionId = divisionId', mappingConferenceId = conferenceId'\<rparr> store"

definition isExpansionTeam :: "MappingStore \<Rightarrow> int \<Rightarrow> bool" where
  "isExpansionTeam store tid = (tid \<in> set (map fst store))"

definition getExpansionTeamMapping :: "MappingStore \<Rightarrow> int \<Rightarrow> ExpansionTeamMapping option" where
  "getExpansionTeamMapping store tid = map_of store tid"

definition getExpansionTeamByName :: "string \<Rightarrow> int option" where
  "getExpansionTeamByName name = map_of EXPANSION_TEAMS name"

definition isValidExpansionTeamName :: "string \<Rightarrow> bool" where
  "isValidExpansionTeamName name =
     (name \<in> set (map fst EXPANSION_TEAMS) \<or> name \<in> set Object_prototype_keys)"

definition getAllExpansionTeamMappings :: "MappingStore \<Rightarrow> ExpansionTeamMapping list" where
  "getAllExpansionTeamMappings store = map snd store"

definition removeExpansionTeamMapping :: "MappingStore \<Rightarrow> int \<Rightarrow> MappingStore" where
  "removeExpansionTeamMapping store tid = AList.delete tid store"

text \<open>
  \<^verbatim>\<open>expansionTeam?.logoId || originalLogoId\<close>: the catalog's logo id when the mapped name is
  a key of the catalog (no logo id of the catalog is 0), the original one otherwise.
\<close>

definition getTeamLogoId :: "MappingStore \<Rightarrow> int \<Rightarrow> int \<Rightarrow> int" where
  "getTeamLogoId store tid originalLogoId =
     (case getExpansionTeamMapping store tid of
        Some mapping \<Rightarrow>
          (case getExpansionTeamByName (expansionName mapping) of
             Some expansionLogoId \<Rightarrow> or_number expansionLogoId originalLogoId
           | None \<Rightarrow> originalLogoId)
      | None \<Rightarrow> originalLogoId)"

definition getTeamDisplayName :: "MappingStore \<Rightarrow> int \<Rightarrow> string \<Rightarrow> string" where
  "getTeamDisplayName store tid originalName' =
     (case getExpansionTeamMapping store tid of
        Some mapping \<Rightarrow> expansionName mapping
      | None \<Rightarrow> originalName')"

text \<open>
  \<^verbatim>\<open>team.displayName || team.nickName || team.teamName\<close>: the first non-empty of the two
  names, else whatever \<^verbatim>\<open>teamName\<close> holds (possibly nothing).
\<close>

definition detectedName :: "Team \<Rightarrow> string option" where
  "detectedName team =
     (if displayName team \<noteq> [] then Some (displayName team)
      else if nickName team \<noteq> [] then Some (nickName team)
      else teamName team)"

text \<open>The body of the \<^verbatim>\<open>forEach\<close> of \<^verbatim>\<open>autoDetectExpansionTeams\<close>, for one team.\<close>

definition autoDetectTeam :: "MappingStore \<Rightarrow> Team \<Rightarrow> MappingStore" where
  "autoDetectTeam store team =
     (case detectedName team of
        None \<Rightarrow> store
      | Some name \<Rightarrow>
          if name \<noteq> [] \<and> isValidExpansionTeamName name then
            (if \<not> isExpansionTeam store (teamId team) then
               registerExpansionTeam store (teamId team) name
                 (case originalName team of
                    Some orig \<Rightarrow> or_string orig name
                  | None \<Rightarrow> name)
                 (or_number (divisionId team) 0)
                 (or_number (conferenceId team) 0)
             else store)
          else store)"

definition autoDetectExpansionTeams :: "MappingStore \<Rightarrow> Team list \<Rightarrow> MappingStore" where
  "autoDetectExpansionTeams store teams = foldl autoDetectTeam store teams"

text \<open>The guard of that body: the team carries a name that auto-detection accepts.\<close>

definition detectable :: "Team \<Rightarrow> bool" where
  "detectable team =
     (case detectedName team of
        None \<Rightarrow> False
      | Some name \<Rightarrow> name \<noteq> [] \<and> isValidExpansionTeamName name)"

section \<open>Team utilities (team\_utils.ts)\<close>

text \<open>
  The callback of the \<^verbatim>\<open>map\<close> in \<^verbatim>\<open>enhanceTeamData\<close>: a copy of the team with the overlay
  fields set. Every right-hand side reads the team as it came in.
\<close>

definition enhanceTeam :: "MappingStore \<Rightarrow> Team \<Rightarrow> Team" where
  "enhanceTeam store team =
     (case getExpansionTeamMapping store (teamId team) of
        Some mapping \<Rightarrow>
          team\<lparr>displayName := getTeamDisplayName store (teamId team) (displayName team),
               nickName := expansionName mapping,
               originalDisplayName := Some (displayName team),
               originalNickName := Some (nickName team),
               logoId := getTeamLogoId store (teamId team) (logoId team),
               isExpansionTeamFlag := Some True\<rparr>
      | None \<Rightarrow> team\<lparr>isExpansionTeamFlag := Some False\<rparr>)"

text \<open>The values \<^verbatim>\<open>enhanceTeamData\<close> computes, with the registry it leaves behind.\<close>

definition enhanceTeamData :: "MappingStore \<Rightarrow> Team list \<Rightarrow> Team list \<times> MappingStore" where
  "enhanceTeamData store teams =
     (let store' = autoDetectExpansionTeams store teams
      in (map (enhanceTeam store') teams, store'))"

definition getTeamAbbreviation :: "MappingStore \<Rightarrow> Team \<Rightarrow> string" where
  "getTeamAbbreviation store team =
     (case getExpansionTeamMapping store (teamId team) of
        Some mapping \<Rightarrow>
          (let wordList = split_space (expansionName mapping) in
           if length wordList = 1 then toUpperCase (take 3 (hd wordList))
           else take 3 (toUpperCase (concat (map (take 1) wordList))))
      | None \<Rightarrow> abbrName team)"

subsection \<open>Division integrity\<close>

text \<open>
  \<^verbatim>\<open>divisionCounts\<close> is a \<^verbatim>\<open>Map<string, number>\<close>: its entries in insertion order. One step
  of the \<^verbatim>\<open>forEach\<close> that fills it:
\<close>

definition countDivision :: "(string \<times> nat) list \<Rightarrow> Team \<Rightarrow> (string \<times> nat) list" where
  "countDivision divisionCounts team =
     AList.update (divName team)
       ((case map_of divisionCounts (divName team) of
           Some n \<Rightarrow> (if n \<noteq> 0 then n else 0)
         | None \<Rightarrow> 0) + 1)
       divisionCounts"

text \<open>
  The \<^verbatim>\<open>for ... of\<close> loop over the counts: at the first division whose count is not 4 it
  warns and the function returns; the result is that warning, if any.
\<close>

fun checkDivisions :: "(string \<times> nat) list \<Rightarrow> string option" where
  "checkDivisions [] = None"
| "checkDivisions ((division, n) # rest) =
     (if n \<noteq> 4 then
        Some (''Division '' @ division @ '' has '' @ numberToString n @ '' teams instead of 4'')
      else checkDivisions rest)"

text \<open>The returned boolean, and the lines written with \<^verbatim>\<open>console.warn\<close>.\<close>

definition validateDivisionIntegrity :: "Team list \<Rightarrow> bool \<times> string list" where
  "validateDivisionIntegrity teams =
     (case checkDivisions (foldl countDivision [] teams) of
        Some warning \<Rightarrow> (False, [warning])
      | None \<Rightarrow> (length teams = 32, []))"

subsection \<open>The search index\<close>

record SearchEntry =
  entryCityName :: string
  entryAbbrName :: string
  entryNickName :: string
  entryDisplayName :: string
  entryId :: int
  entryOriginalNickName :: string
  entryOriginalDisplayName :: string
  entryIsExpansionTeam :: bool

definition searchEntry :: "MappingStore \<Rightarrow> Team \<Rightarrow> SearchEntry" where
  "searchEntry store team =
     \<lparr>entryCityName = cityName team,
      entryAbbrName = getTeamAbbreviation store team,
      entryNickName =
        (case getExpansionTeamMapping store (teamId team) of
           Some mapping \<Rightarrow> expansionName mapping
         | None \<Rightarrow> nickName team),
      entryDisplayName = getTeamDisplayName store (teamId team) (displayName team),
      entryId = teamId team,
      entryOriginalNickName = nickName team,
      entryOriginalDisplayName = displayName team,
      entryIsExpansionTeam = (getExpansionTeamMapping store (teamId team) \<noteq> None)\<rparr>"

text \<open>
  \<^verbatim>\<open>searchIndex\<close> is a plain object keyed by team id: its properties in creation order; an
  assignment to a present key replaces the value where it stands.
\<close>

definition createEnhancedTeamSearchIndex ::
  "MappingStore \<Rightarrow> Team list \<Rightarrow> (int \<times> SearchEntry) list" where
  "createEnhancedTeamSearchIndex store teams =
     foldl (\<lambda>searchIndex team. AList.update (teamId team) (searchEntry store team) searchIndex)
       [] teams"

text \<open>
  \<^verbatim>\<open>Object.values\<close> enumerates the keys that are array indices (the integers from 0 up to
  \<open>2\<^sup>3\<^sup>2 - 2\<close>) first, in ascending order, and the other keys after them in creation order.
\<close>

definition isArrayIndex :: "int \<Rightarrow> bool" where
  "isArrayIndex k = (0 \<le> k \<and> k < 4294967295)"

definition Object_values :: "(int \<times> 'a) list \<Rightarrow> 'a list" where
  "Object_values obj =
     map snd (sort_key fst (filter (\<lambda>p. isArrayIndex (fst p)) obj) @
              filter (\<lambda>p. \<not> isArrayIndex (fst p)) obj)"

subsection \<open>Sorting for display\<close>

text \<open>
  \<^verbatim>\<open>Array.prototype.sort\<close> with a comparison function: a stable sort, here by insertion from
  the right. The array is sorted in place; the model returns its new contents.
\<close>

fun insertByCompare :: "('a \<Rightarrow> 'a \<Rightarrow> int) \<Rightarrow> 'a \<Rightarrow> 'a list \<Rightarrow> 'a list" where
  "insertByCompare compareFn x [] = [x]"
| "insertByCompare compareFn x (y # ys) =
     (if compareFn x y \<le> 0 then x # y # ys else y # insertByCompare compareFn x ys)"

definition Array_sort :: "('a \<Rightarrow> 'a \<Rightarrow> int) \<Rightarrow> 'a list \<Rightarrow> 'a list" where
  "Array_sort compareFn xs = foldr (insertByCompare compareFn) xs []"

text \<open>
  The comparison function of \<^verbatim>\<open>sortTeamsForDivisionDisplay\<close>. \<^verbatim>\<open>String.prototype.localeCompare\<close>
  depends on the host's collation and is a parameter.
\<close>

definition compareForDivisionDisplay ::
  "(string \<Rightarrow> string \<Rightarrow> int) \<Rightarrow> MappingStore \<Rightarrow> Team \<Rightarrow> Team \<Rightarrow> int" where
  "compareForDivisionDisplay localeCompare store a b =
     (if divName a \<noteq> divName b then localeCompare (divName a) (divName b)
      else localeCompare (getTeamDisplayName store (teamId a) (displayName a))
                         (getTeamDisplayName store (teamId b) (displayName b)))"

definition sortTeamsForDivisionDisplay ::
  "(string \<Rightarrow> string \<Rightarrow> int) \<Rightarrow> MappingStore \<Rightarrow> Team list \<Rightarrow> Team list" where
  "sortTeamsForDivisionDisplay localeCompare store teams =
     Array_sort (compareForDivisionDisplay localeCompare store) teams"

text \<open>
  What the language standard requires of \<^verbatim>\<open>localeCompare\<close>: a consistent comparison, that
  is, a total preorder of the strings. Two different strings may compare equal.
\<close>

definition consistentCompare :: "(string \<Rightarrow> string \<Rightarrow> int) \<Rightarrow> bool" where
  "consistentCompare localeCompare =
     ((\<forall>x y. localeCompare x y \<le> 0 \<or> localeCompare y x \<le> 0) \<and>
      (\<forall>x y z. localeCompare x y \<le> 0 \<longrightarrow> localeCompare y z \<le> 0 \<longrightarrow> localeCompare x z \<le> 0))"

text \<open>
  The comparison tells the division names of a roster apart: two of them that compare equal
  are the same string.
\<close>

definition divisionNamesDistinguished ::
  "(string \<Rightarrow> string \<Rightarrow> int) \<Rightarrow> Team list \<Rightarrow> bool" where
  "divisionNamesDistinguished localeCompare teams =
     (\<forall>a \<in> set teams. \<forall>b \<in> set teams.
        localeCompare (divName a) (divName b) \<le> 0 \<longrightarrow>
        localeCompare (divName b) (divName a) \<le> 0 \<longrightarrow> divName a = divName b)"

text \<open>
  A comparison that tells all strings apart. \<^verbatim>\<open>localeCompare\<close> need not be one; it is used
  only to show that an order by division id fails even for such a comparison.
\<close>

definition linearCompare :: "(string \<Rightarrow> string \<Rightarrow> int) \<Rightarrow> bool" where
  "linearCompare localeCompare =
     ((\<forall>x y. localeCompare x y \<le> 0 \<or> localeCompare y x \<le> 0) \<and>
      (\<forall>x y z. localeCompare x y \<le> 0 \<longrightarrow> localeCompare y z \<le> 0 \<longrightarrow> localeCompare x z \<le> 0) \<and>
      (\<forall>x y. localeCompare x y \<le> 0 \<longrightarrow> localeCompare y x \<le> 0 \<longrightarrow> x = y))"

text \<open>A comparison by character codes, for the examples.\<close>

definition codeUnitCompare :: "string \<Rightarrow> string \<Rightarrow> int" where
  "codeUnitCompare x y = (if x < y then - 1 else if x = y then 0 else 1)"

text \<open>
  A comparison that ignores the soft hyphen (character 0xAD), as collations do: consistent, but
  it takes two strings that differ in soft hyphens only for equal.
\<close>

definition softHyphenCompare :: "string \<Rightarrow> string \<Rightarrow> int" where
  "softHyphenCompare x y =
     codeUnitCompare (filter (\<lambda>c. c \<noteq> CHR 0xAD) x) (filter (\<lambda>c. c \<noteq> CHR 0xAD) y)"

section \<open>The enhanced team list (enhanced\_madden\_db.ts)\<close>

text \<open>
  The closure \<^verbatim>\<open>createEnhancedTeamList\<close> returns: the array \<^verbatim>\<open>enhancedTeams\<close>, the map
  \<^verbatim>\<open>teamMap\<close> built from it, and the lookup of the wrapped original list, which is outside
  these sources (its result \<open>None\<close> stands for its failure).
\<close>

record EnhancedTeamList =
  enhancedTeams :: "Team list"
  teamMap :: "(int \<times> Team) list"
  getTeamForId :: "int \<Rightarrow> Team option"

definition createEnhancedTeamList ::
  "MappingStore \<Rightarrow> Team list \<Rightarrow> (int \<Rightarrow> Team option) \<Rightarrow> EnhancedTeamList \<times> MappingStore" where
  "createEnhancedTeamList store originalTeams originalGetTeamForId =
     (let (enhanced, store') = enhanceTeamData store originalTeams
      in (\<lparr>enhancedTeams = enhanced,
           teamMap = foldl (\<lambda>m team. AList.update (teamId team) team m) [] enhanced,
           getTeamForId = originalGetTeamForId\<rparr>, store'))"

definition getEnhancedTeamForId :: "EnhancedTeamList \<Rightarrow> int \<Rightarrow> Team option" where
  "getEnhancedTeamForId teamList tid =
     (case map_of (teamMap teamList) tid of
        Some team \<Rightarrow> Some team
      | None \<Rightarrow> getTeamForId teamList tid)"

text \<open>
  \<^verbatim>\<open>getEnhancedLatestTeams()\<close> sorts the closure's array in place and returns it: the model
  returns the sorted teams and the list holding them.
\<close>

definition getEnhancedLatestTeams ::
  "(string \<Rightarrow> string \<Rightarrow> int) \<Rightarrow> MappingStore \<Rightarrow> EnhancedTeamList \<Rightarrow> Team list \<times> EnhancedTeamList" where
  "getEnhancedLatestTeams localeCompare store teamList =
     (let sorted = sortTeamsForDivisionDisplay localeCompare store (enhancedTeams teamList)
      in (sorted, teamList\<lparr>enhancedTeams := sorted\<rparr>))"

definition validateDivisionStructure :: "EnhancedTeamList \<Rightarrow> bool \<times> string list" where
  "validateDivisionStructure teamList = validateDivisionIntegrity (enhancedTeams teamList)"

section \<open>Team references (enhanced\_team\_utils.ts)\<close>

text \<open>The object \<^verbatim>\<open>{ valid, team?, error? }\<close> that the validation returns.\<close>

record Validation =
  valid :: bool
  resultTeam :: "Team option"
  resultError :: "string option"

text \<open>The predicate of the \<^verbatim>\<open>find\<close> (exact pass) and of the \<^verbatim>\<open>filter\<close> (partial pass).\<close>

definition exactMatch :: "string \<Rightarrow> SearchEntry \<Rightarrow> bool" where
  "exactMatch teamReference entry =
     (toLowerCase (entryDisplayName entry) = toLowerCase teamReference \<or>
      toLowerCase (entryNickName entry) = toLowerCase teamReference \<or>
      toLowerCase (entryAbbrName entry) = toLowerCase teamReference)"

definition partialMatch :: "string \<Rightarrow> SearchEntry \<Rightarrow> bool" where
  "partialMatch teamReference entry =
     (includes_str (toLowerCase (entryDisplayName entry)) (toLowerCase teamReference) \<or>
      includes_str (toLowerCase (entryCityName entry)) (toLowerCase teamReference) \<or>
      includes_str (toLowerCase (entryNickName entry)) (toLowerCase teamReference))"

definition foundTeam :: "Team \<Rightarrow> Validation" where
  "foundTeam team = \<lparr>valid = True, resultTeam = Some team, resultError = None\<rparr>"

definition multipleTeamsError :: "string \<Rightarrow> SearchEntry list \<Rightarrow> Validation" where
  "multipleTeamsError teamReference partialMatches =
     \<lparr>valid = False, resultTeam = None,
      resultError = Some (''Multiple teams found for '' @ [CHR 0x22] @ teamReference @
        [CHR 0x22] @ '': '' @ join '', '' (map entryDisplayName partialMatches) @
        ''. Please be more specific.'')\<rparr>"

definition noTeamError :: "string \<Rightarrow> Validation" where
  "noTeamError teamReference =
     \<lparr>valid = False, resultTeam = None,
      resultError = Some (''No team found for '' @ [CHR 0x22] @ teamReference @ [CHR 0x22] @
        ''. Please check the team name and try again.'')\<rparr>"

text \<open>
  \<^verbatim>\<open>validateEnhancedTeamReference\<close>. The first component of the result is \<open>None\<close> when the
  lookup of the wrapped original list fails; the second is the team list, whose array the
  call has sorted.
\<close>

definition validateEnhancedTeamReference ::
  "(string \<Rightarrow> string \<Rightarrow> int) \<Rightarrow> MappingStore \<Rightarrow> string \<Rightarrow> EnhancedTeamList
     \<Rightarrow> Validation option \<times> EnhancedTeamList" where
  "validateEnhancedTeamReference localeCompare store teamReference teamList =
     (let (teams, teamList') = getEnhancedLatestTeams localeCompare store teamList;
          searchIndex = createEnhancedTeamSearchIndex store teams
      in (case find (exactMatch teamReference) (Object_values searchIndex) of
            Some exact \<Rightarrow>
              (map_option foundTeam (getEnhancedTeamForId teamList' (entryId exact)), teamList')
          | None \<Rightarrow>
              (let partialMatches = filter (partialMatch teamReference) (Object_values searchIndex)
               in if length partialMatches = 1 then
                    (map_option foundTeam
                       (getEnhancedTeamForId teamList' (entryId (hd partialMatches))), teamList')
                  else if length partialMatches > 1 then
                    (Some (multipleTeamsError teamReference partialMatches), teamList')
                  else (Some (noTeamError teamReference), teamList'))))"

text \<open>
  The entries the two passes of a call range over, in the order of enumeration.
\<close>

definition searchEntries ::
  "(string \<Rightarrow> string \<Rightarrow> int) \<Rightarrow> MappingStore \<Rightarrow> EnhancedTeamList \<Rightarrow> SearchEntry list" where
  "searchEntries localeCompare store teamList =
     Object_values (createEnhancedTeamSearchIndex store
       (fst (getEnhancedLatestTeams localeCompare store teamList)))"

section \<open>Objects and references\<close>

text \<open>
  Where a property is about which objects a function writes, teams and arrays of teams live in
  a store of cells, addressed by their position; a new object takes the next free address.
\<close>

datatype cell = TeamObject Team | TeamArray "nat list"

type_synonym heap = "cell list"

definition readTeam :: "heap \<Rightarrow> nat \<Rightarrow> Team option" where
  "readTeam h ref =
     (if ref < length h then (case h ! ref of TeamObject team \<Rightarrow> Some team | TeamArray _ \<Rightarrow> None)
      else None)"

definition readTeamArray :: "heap \<Rightarrow> nat \<Rightarrow> Team list option" where
  "readTeamArray h ref =
     (if ref < length h then
        (case h ! ref of TeamArray refs \<Rightarrow> those (map (readTeam h) refs) | TeamObject _ \<Rightarrow> None)
      else None)"

text \<open>
  \<^verbatim>\<open>enhanceTeamData\<close> on references: auto-detection reads the teams; each call of the
  \<^verbatim>\<open>map\<close> callback builds one new object from a spread of the team it is given; \<^verbatim>\<open>map\<close>
  returns a new array of these. The result is the address of that array, the store and the
  registry; \<open>None\<close> only when the argument is not the address of an array of teams.
\<close>

definition enhanceTeamDataRef ::
  "heap \<Rightarrow> MappingStore \<Rightarrow> nat \<Rightarrow> (nat \<times> heap \<times> MappingStore) option" where
  "enhanceTeamDataRef h store teamsRef =
     (case readTeamArray h teamsRef of
        None \<Rightarrow> None
      | Some teams \<Rightarrow>
          (let store' = autoDetectExpansionTeams store teams;
               created = map (enhanceTeam store') teams;
               h' = h @ map TeamObject created;
               resultRefs = [length h ..< length h + length created]
           in Some (length h', h' @ [TeamArray resultRefs], store')))"

section \<open>Example data\<close>

definition exampleTeam ::
  "int \<Rightarrow> string \<Rightarrow> string \<Rightarrow> string \<Rightarrow> string \<Rightarrow> int \<Rightarrow> Team" where
  "exampleTeam tid city nick abbr division divId =
     \<lparr>teamId = tid, displayName = nick, nickName = nick, cityName = city, abbrName = abbr,
      divName = division, divisionId = divId, conferenceId = 1, logoId = tid,
      teamName = None, originalName = None, originalDisplayName = None,
      originalNickName = None, isExpansionTeamFlag = None\<rparr>"

definition exampleDivisions :: "string list" where
  "exampleDivisions =
     [''AFC East'', ''AFC North'', ''AFC South'', ''AFC West'',
      ''NFC East'', ''NFC North'', ''NFC South'', ''NFC West'']"

text \<open>Thirty-two teams, four in each of eight divisions.\<close>

definition exampleLeague :: "Team list" where
  "exampleLeague =
     concat (map (\<lambda>(k, division).
         map (\<lambda>j. exampleTeam (4 * k + j) ''City'' ''Team'' ''TM'' division k) [0, 1, 2, 3])
       (zip [0, 1, 2, 3, 4, 5, 6, 7] exampleDivisions))"

text \<open>The same league after its first team has moved from the AFC East to the NFC West.\<close>

definition movedLeague :: "Team list" where
  "movedLeague = exampleLeague[0 := (exampleLeague ! 0)\<lparr>divName := ''NFC West''\<rparr>]"

text \<open>
  A league of three teams; team 7, the Bears, is registered as the Dragons, and the other two
  carry catalog names already.
\<close>

definition bears :: Team where
  "bears = exampleTeam 7 ''Chicago'' ''Bears'' ''CHI'' ''NFC North'' 6"

definition nightHawks :: Team where
  "nightHawks = exampleTeam 3 ''Dublin'' ''Night Hawks'' ''DUB'' ''AFC East'' 9"

definition snowhawks :: Team where
  "snowhawks = exampleTeam 12 ''Anchorage'' ''Snowhawks'' ''ANC'' ''AFC West'' 4"

definition dragonsStore :: MappingStore where
  "dragonsStore = registerExpansionTeam [] 7 ''Dragons'' ''Bears'' 6 1"

definition dragonsLeague :: "EnhancedTeamList \<times> MappingStore" where
  "dragonsLeague =
     createEnhancedTeamList dragonsStore [bears, nightHawks, snowhawks] (\<lambda>tid. None)"

text \<open>A league in which two teams carry the same catalog name.\<close>

definition tigersOfLondon :: Team where
  "tigersOfLondon = exampleTeam 5 ''London'' ''Tigers'' ''LON'' ''AFC East'' 1"

definition tigersOfDublin :: Team where
  "tigersOfDublin = exampleTeam 3 ''Dublin'' ''Tigers'' ''DUB'' ''NFC West'' 8"

definition tigersLeague :: "EnhancedTeamList \<times> MappingStore" where
  "tigersLeague = createEnhancedTeamList [] [tigersOfLondon, tigersOfDublin] (\<lambda>tid. None)"

text \<open>
  A league whose Bills (team 2) are registered as the Wizards, in the order Bills, Cowboys,
  Jets.
\<close>

definition jets :: Team where
  "jets = exampleTeam 1 ''New York'' ''Jets'' ''NYJ'' ''AFC East'' 5"

definition bills :: Team where
  "bills = exampleTeam 2 ''Buffalo'' ''Bills'' ''BUF'' ''AFC East'' 5"

definition cowboys :: Team where
  "cowboys = exampleTeam 9 ''Dallas'' ''Cowboys'' ''DAL'' ''NFC East'' 2"

definition wizardsLeague :: "EnhancedTeamList \<times> MappingStore" where
  "wizardsLeague =
     createEnhancedTeamList (registerExpansionTeam [] 2 ''Wizards'' ''Bills'' 5 1)
       [bills, cowboys, jets] (\<lambda>tid. None)"

text \<open>
  A league with the division names East and East followed by a soft hyphen; no team carries a
  catalog name.
\<close>

definition softHyphenLeague :: "EnhancedTeamList \<times> MappingStore" where
  "softHyphenLeague =
     createEnhancedTeamList []
       [exampleTeam 1 ''Zurich'' ''Zed'' ''ZUR'' ''East'' 1,
        exampleTeam 2 ''Milan'' ''Mid'' ''MIL'' (''East'' @ [CHR 0xAD]) 2,
        exampleTeam 3 ''Athens'' ''Alpha'' ''ATH'' ''East'' 1]
       (\<lambda>tid. None)"

text \<open>A store holding two teams and, at address 2, the array of the second and the first.\<close>

definition exampleHeap :: heap where
  "exampleHeap = [TeamObject bears, TeamObject nightHawks, TeamArray [1, 0]]"

section \<open>Properties of the sim results\<close>

text \<open>
  C1. The classifier depends on the emptiness of its two arguments only, and gives
  FORCE_WIN_HOME for home only, FORCE_WIN_AWAY for away only, FAIR_SIM for both and NONE for
  neither; the four cases are exhaustive and exclusive, so each input has exactly one outcome.
\<close>

theorem classify_table:
  fixes homeUsers awayUsers homeUsers' awayUsers' :: "'u list"
  shows
  "(homeUsers \<noteq> [] \<and> awayUsers = [] \<longrightarrow> classify homeUsers awayUsers = FORCE_WIN_HOME) \<and>
   (awayUsers \<noteq> [] \<and> homeUsers = [] \<longrightarrow> classify homeUsers awayUsers = FORCE_WIN_AWAY) \<and>
   (homeUsers \<noteq> [] \<and> awayUsers \<noteq> [] \<longrightarrow> classify homeUsers awayUsers = FAIR_SIM) \<and>
   (homeUsers = [] \<and> awayUsers = [] \<longrightarrow> classify homeUsers awayUsers = NONE) \<and>
   ((homeUsers = [] \<longleftrightarrow> homeUsers' = []) \<and> (awayUsers = [] \<longleftrightarrow> awayUsers' = [])
      \<longrightarrow> classify homeUsers awayUsers = classify homeUsers' awayUsers')"
  by (cases homeUsers; cases awayUsers; cases homeUsers'; cases awayUsers')
     (simp_all add: classify_def)

theorem classify_table_witness:
  "classify [1::nat] [] = FORCE_WIN_HOME \<and> classify [] [2::nat] = FORCE_WIN_AWAY \<and>
   classify [1::nat] [2] = FAIR_SIM \<and> classify ([]::nat list) [] = NONE \<and>
   classify [1::nat] [2] = classify [3, 4::nat] [5::nat]"
  using classify_table [of "[1::nat]" "[]" "[1]" "[]"]
    classify_table [of "[]" "[2::nat]" "[]" "[2]"]
    classify_table [of "[1::nat]" "[2]" "[3, 4]" "[5]"]
    classify_table [of "[]::nat list" "[]" "[]" "[]"]
  by (simp add: classify_def)

text \<open>
  C10. The scoreboard's formatter returns a string exactly for the three stored results
  FAIR_SIM, FORCE_WIN_AWAY and FORCE_WIN_HOME; on every other value it throws, and so it does
  on the classifier's outcome NONE: of the four outcomes, NONE is the one it throws on.
\<close>

theorem createSimMessage_cases:
  "createSimMessage (JSString ''FAIR_SIM'') = Inr ''Fair Sim'' \<and>
   createSimMessage (JSString ''FORCE_WIN_AWAY'') = Inr ''Force Win Away'' \<and>
   createSimMessage (JSString ''FORCE_WIN_HOME'') = Inr ''Force Win Home'' \<and>
   ((\<exists>s. createSimMessage result = Inr s) \<longleftrightarrow>
      result \<in> {JSString ''FAIR_SIM'', JSString ''FORCE_WIN_AWAY'', JSString ''FORCE_WIN_HOME''}) \<and>
   ((createSimMessage result = Inl (Error ''Should not have gotten here! from createSimMessage''))
      \<longleftrightarrow>
      result \<notin> {JSString ''FAIR_SIM'', JSString ''FORCE_WIN_AWAY'', JSString ''FORCE_WIN_HOME''}) \<and>
   ((createSimMessage (JSString (SimResult_value outcome)) =
       Inl (Error ''Should not have gotten here! from createSimMessage''))
      \<longleftrightarrow> outcome = NONE)"
  by (cases outcome) (simp_all add: createSimMessage_def)

section \<open>Properties of the mapping registry\<close>

lemma autoDetectTeam_extends: "\<exists>ext. autoDetectTeam store team = store @ ext"
proof (cases "autoDetectTeam store team = store")
  case True
  then show ?thesis by simp
next
  case False
  then obtain name orig where
    fresh: "teamId team \<notin> fst ` set store" and
    reg: "autoDetectTeam store team =
      registerExpansionTeam store (teamId team) name orig
        (or_number (divisionId team) 0) (or_number (conferenceId team) 0)"
    by (auto simp: autoDetectTeam_def isExpansionTeam_def split: option.splits if_splits)
  from fresh have "AList.update (teamId team) v store = store @ [(teamId team, v)]" for v
    by (induction store) auto
  with reg show ?thesis
    by (simp add: registerExpansionTeam_def)
qed

lemma autoDetectExpansionTeams_extends:
  "\<exists>ext. autoDetectExpansionTeams store teams = store @ ext"
proof (induction teams arbitrary: store)
  case Nil
  then show ?case by (simp add: autoDetectExpansionTeams_def)
next
  case (Cons team teams)
  obtain e1 where e1: "autoDetectTeam store team = store @ e1"
    using autoDetectTeam_extends by blast
  obtain e2 where "autoDetectExpansionTeams (store @ e1) teams = (store @ e1) @ e2"
    using Cons.IH by blast
  with e1 show ?case
    by (simp add: autoDetectExpansionTeams_def)
qed

text \<open>A team that auto-detection would register is registered after its step.\<close>

lemma autoDetectTeam_undetectable: "\<not> detectable team \<Longrightarrow> autoDetectTeam store team = store"
  by (auto simp: autoDetectTeam_def detectable_def split: option.splits)

lemma autoDetectTeam_registered:
  "isExpansionTeam store (teamId team) \<Longrightarrow> autoDetectTeam store team = store"
  by (auto simp: autoDetectTeam_def split: option.splits)

lemma autoDetectTeam_registers:
  "detectable team \<Longrightarrow> isExpansionTeam (autoDetectTeam store team) (teamId team)"
  by (auto simp add: autoDetectTeam_def detectable_def isExpansionTeam_def
      registerExpansionTeam_def dom_update simp del: image_iff split: option.splits)

lemma isExpansionTeam_append: "isExpansionTeam store tid \<Longrightarrow> isExpansionTeam (store @ ext) tid"
  by (auto simp: isExpansionTeam_def)

lemma autoDetectExpansionTeams_keeps:
  "isExpansionTeam store tid \<Longrightarrow> isExpansionTeam (autoDetectExpansionTeams store teams) tid"
  using autoDetectExpansionTeams_extends [of store teams] isExpansionTeam_append
  by (metis)

lemma autoDetectExpansionTeams_covers:
  "team \<in> set teams \<Longrightarrow> detectable team \<Longrightarrow>
   isExpansionTeam (autoDetectExpansionTeams store teams) (teamId team)"
proof (induction teams arbitrary: store)
  case Nil
  then show ?case by simp
next
  case (Cons t teams)
  have unfold: "autoDetectExpansionTeams store (t # teams) =
      autoDetectExpansionTeams (autoDetectTeam store t) teams"
    by (simp add: autoDetectExpansionTeams_def)
  show ?case
  proof (cases "team = t")
    case True
    with Cons.prems have "isExpansionTeam (autoDetectTeam store t) (teamId team)"
      using autoDetectTeam_registers by blast
    then show ?thesis
      unfolding unfold by (rule autoDetectExpansionTeams_keeps)
  next
    case False
    with Cons.prems have "team \<in> set teams" by simp
    then show ?thesis
      unfolding unfold using Cons.IH Cons.prems(2) by blast
  qed
qed

lemma autoDetectExpansionTeams_fixed:
  "(\<And>team. team \<in> set teams \<Longrightarrow> detectable team \<Longrightarrow> isExpansionTeam store (teamId team))
   \<Longrightarrow> autoDetectExpansionTeams store teams = store"
proof (induction teams)
  case Nil
  then show ?case by (simp add: autoDetectExpansionTeams_def)
next
  case (Cons t teams)
  have "autoDetectTeam store t = store"
    using Cons.prems [of t] autoDetectTeam_undetectable autoDetectTeam_registered
    by (cases "detectable t") auto
  moreover have "autoDetectExpansionTeams store teams = store"
    using Cons by simp
  ultimately show ?case
    by (simp add: autoDetectExpansionTeams_def)
qed

lemma autoDetectTeam_distinct:
  "distinct (map fst store) \<Longrightarrow> distinct (map fst (autoDetectTeam store team))"
  by (auto simp: autoDetectTeam_def registerExpansionTeam_def distinct_update
      split: option.splits)

lemma autoDetectExpansionTeams_distinct:
  "distinct (map fst store) \<Longrightarrow> distinct (map fst (autoDetectExpansionTeams store teams))"
  unfolding autoDetectExpansionTeams_def
  by (induction teams arbitrary: store) (simp_all add: autoDetectTeam_distinct)

text \<open>
  C7. Auto-detection is idempotent: on every team list and every registry, a second run on
  the same list changes nothing. A run only appends entries, so what was registered before
  stays as it was and where it was, and a registry with one entry per team id keeps one
  entry per team id.
\<close>

theorem autoDetectExpansionTeams_idempotent:
  "autoDetectExpansionTeams (autoDetectExpansionTeams store teams) teams =
     autoDetectExpansionTeams store teams \<and>
   (\<exists>ext. autoDetectExpansionTeams store teams = store @ ext) \<and>
   (distinct (map fst store) \<longrightarrow>
      distinct (map fst (autoDetectExpansionTeams store teams)) \<and>
      (\<forall>tid. isExpansionTeam store tid \<longrightarrow>
         getExpansionTeamMapping (autoDetectExpansionTeams store teams) tid =
         getExpansionTeamMapping store tid))"
proof (intro conjI impI allI)
  show "autoDetectExpansionTeams (autoDetectExpansionTeams store teams) teams =
     autoDetectExpansionTeams store teams"
    by (rule autoDetectExpansionTeams_fixed) (rule autoDetectExpansionTeams_covers)
  show "\<exists>ext. autoDetectExpansionTeams store teams = store @ ext"
    by (rule autoDetectExpansionTeams_extends)
  show "distinct (map fst (autoDetectExpansionTeams store teams))"
    if "distinct (map fst store)"
    using that by (rule autoDetectExpansionTeams_distinct)
  show "getExpansionTeamMapping (autoDetectExpansionTeams store teams) tid =
         getExpansionTeamMapping store tid"
    if "distinct (map fst store)" and reg: "isExpansionTeam store tid" for tid
  proof -
    obtain ext where ext: "autoDetectExpansionTeams store teams = store @ ext"
      using autoDetectExpansionTeams_extends by blast
    from reg have "tid \<in> dom (map_of store)"
      by (simp add: isExpansionTeam_def dom_map_of_conv_image_fst)
    then show ?thesis
      unfolding getExpansionTeamMapping_def ext
      by (auto simp: map_add_dom_app_simps)
  qed
qed

theorem autoDetectExpansionTeams_idempotent_witness:
  "autoDetectExpansionTeams (autoDetectExpansionTeams dragonsStore [bears, nightHawks, snowhawks])
     [bears, nightHawks, snowhawks] =
     autoDetectExpansionTeams dragonsStore [bears, nightHawks, snowhawks] \<and>
   map fst (autoDetectExpansionTeams dragonsStore [bears, nightHawks, snowhawks]) = [7, 3, 12] \<and>
   distinct (map fst dragonsStore) \<and> isExpansionTeam dragonsStore 7 \<and>
   distinct (map fst (autoDetectExpansionTeams dragonsStore [bears, nightHawks, snowhawks])) \<and>
   getExpansionTeamMapping (autoDetectExpansionTeams dragonsStore [bears, nightHawks, snowhawks]) 7 =
     getExpansionTeamMapping dragonsStore 7"
proof -
  have d: "distinct (map fst dragonsStore)"
    by (simp add: dragonsStore_def registerExpansionTeam_def)
  have r: "isExpansionTeam dragonsStore 7"
    by (simp add: dragonsStore_def registerExpansionTeam_def isExpansionTeam_def)
  have k: "map fst (autoDetectExpansionTeams dragonsStore [bears, nightHawks, snowhawks]) =
      [7, 3, 12]"
    by code_simp
  from autoDetectExpansionTeams_idempotent [of dragonsStore "[bears, nightHawks, snowhawks]"] d r k
  show ?thesis
    by blast
qed

section \<open>Properties of the division validator\<close>

lemma countDivision_update:
  "countDivision m team =
     AList.update (divName team)
       (Suc (case map_of m (divName team) of Some n \<Rightarrow> n | None \<Rightarrow> 0)) m"
  by (simp add: countDivision_def split: option.splits)

text \<open>The count stored for a division is the number of teams seen with that division name.\<close>

lemma divisionCounts_lookup:
  "map_of (foldl countDivision m teams) d =
     (if d \<in> divName ` set teams \<or> d \<in> fst ` set m
      then Some (length (filter (\<lambda>team. divName team = d) teams) +
                 (case map_of m d of Some n \<Rightarrow> n | None \<Rightarrow> 0))
      else None)"
proof (induction teams arbitrary: m)
  case Nil
  then show ?case
    by (auto simp: map_of_eq_None_iff split: option.splits)
next
  case (Cons t teams)
  let ?m' = "countDivision m t"
  have look: "map_of ?m' d =
      (if d = divName t then Some (Suc (case map_of m d of Some n \<Rightarrow> n | None \<Rightarrow> 0))
       else map_of m d)"
    by (simp add: countDivision_update update_conv')
  have keys: "fst ` set ?m' = insert (divName t) (fst ` set m)"
    by (simp add: countDivision_update dom_update)
  have none: "map_of m d = None" if "d \<notin> fst ` set m"
    using that by (simp add: map_of_eq_None_iff)
  have "map_of (foldl countDivision m (t # teams)) d = map_of (foldl countDivision ?m' teams) d"
    by simp
  also have "\<dots> = (if d \<in> divName ` set teams \<or> d \<in> fst ` set ?m'
      then Some (length (filter (\<lambda>team. divName team = d) teams) +
                 (case map_of ?m' d of Some n \<Rightarrow> n | None \<Rightarrow> 0))
      else None)"
    by (rule Cons.IH)
  also have "\<dots> = (if d \<in> divName ` set (t # teams) \<or> d \<in> fst ` set m
      then Some (length (filter (\<lambda>team. divName team = d) (t # teams)) +
                 (case map_of m d of Some n \<Rightarrow> n | None \<Rightarrow> 0))
      else None)"
    unfolding look keys
    by (cases "d = divName t") (auto simp: none)
  finally show ?case .
qed

lemma divisionCounts_distinct:
  "distinct (map fst m) \<Longrightarrow> distinct (map fst (foldl countDivision m teams))"
  by (induction teams arbitrary: m) (simp_all add: countDivision_update distinct_update)

lemma checkDivisions_None: "checkDivisions al = None \<longleftrightarrow> (\<forall>p \<in> set al. snd p = 4)"
  by (induction al rule: checkDivisions.induct) auto

text \<open>
  C6. The validator returns true exactly when every division name that occurs in the roster
  occurs on exactly 4 teams and the roster has exactly 32 teams; so it returns true on every
  roster of 32 teams split evenly into divisions of 4.
\<close>

theorem validateDivisionIntegrity_iff:
  "fst (validateDivisionIntegrity teams) \<longleftrightarrow>
     (\<forall>d \<in> divName ` set teams. length (filter (\<lambda>team. divName team = d) teams) = 4) \<and>
     length teams = 32"
proof -
  let ?counts = "foldl countDivision [] teams"
  have dist: "distinct (map fst ?counts)"
    by (rule divisionCounts_distinct) simp
  have look: "map_of ?counts d =
      (if d \<in> divName ` set teams
       then Some (length (filter (\<lambda>team. divName team = d) teams)) else None)" for d
    using divisionCounts_lookup [of "[]" teams d] by simp
  have "checkDivisions ?counts = None \<longleftrightarrow> (\<forall>d n. map_of ?counts d = Some n \<longrightarrow> n = 4)"
    unfolding checkDivisions_None using dist by (auto simp: map_of_eq_Some_iff)
  also have "\<dots> \<longleftrightarrow>
      (\<forall>d \<in> divName ` set teams. length (filter (\<lambda>team. divName team = d) teams) = 4)"
    unfolding look by auto
  finally show ?thesis
    by (auto simp: validateDivisionIntegrity_def split: option.splits)
qed

theorem validateDivisionIntegrity_iff_witness:
  "fst (validateDivisionIntegrity exampleLeague) \<and> length exampleLeague = 32 \<and>
   ''NFC West'' \<in> divName ` set exampleLeague \<and>
   length (filter (\<lambda>team. divName team = ''NFC West'') exampleLeague) = 4 \<and>
   \<not> fst (validateDivisionIntegrity movedLeague) \<and> length movedLeague = 32 \<and>
   ''NFC West'' \<in> divName ` set movedLeague \<and>
   length (filter (\<lambda>team. divName team = ''NFC West'') movedLeague) = 5"
proof -
  have run: "fst (validateDivisionIntegrity exampleLeague)"
    by code_simp
  have west: "''NFC West'' \<in> divName ` set exampleLeague"
    by code_simp
  have moved: "length (filter (\<lambda>team. divName team = ''NFC West'') movedLeague) = 5"
    by code_simp
  have west': "''NFC West'' \<in> divName ` set movedLeague"
    by code_simp
  have len: "length movedLeague = 32"
    by code_simp
  from validateDivisionIntegrity_iff [of exampleLeague] run west
  have "length (filter (\<lambda>team. divName team = ''NFC West'') exampleLeague) = 4 \<and>
      length exampleLeague = 32"
    by blast
  moreover from validateDivisionIntegrity_iff [of movedLeague] moved west'
  have "\<not> fst (validateDivisionIntegrity movedLeague)"
    by fastforce
  ultimately show ?thesis
    using run west west' moved len by blast
qed

text \<open>
  C3. The specification asks for one diagnostic line for every division whose count is not 4. On the
  league whose first team has moved from the AFC East (now 3 teams) to the NFC West (now 5),
  the validator returns false with a single line, for the NFC West; the AFC East is not
  reported. On no roster does it write more than one line.
\<close>

theorem validateDivisionIntegrity_first_division_only:
  "validateDivisionIntegrity movedLeague =
     (False, [''Division NFC West has 5 teams instead of 4'']) \<and>
   length (filter (\<lambda>team. divName team = ''AFC East'') movedLeague) = 3 \<and>
   length (filter (\<lambda>team. divName team = ''NFC West'') movedLeague) = 5 \<and>
   validateDivisionIntegrity exampleLeague = (True, []) \<and>
   length (snd (validateDivisionIntegrity teams)) \<le> 1"
proof (intro conjI)
  show "validateDivisionIntegrity movedLeague =
     (False, [''Division NFC West has 5 teams instead of 4''])"
    by code_simp
  show "length (filter (\<lambda>team. divName team = ''AFC East'') movedLeague) = 3"
    by code_simp
  show "length (filter (\<lambda>team. divName team = ''NFC West'') movedLeague) = 5"
    by code_simp
  show "validateDivisionIntegrity exampleLeague = (True, [])"
    by code_simp
  show "length (snd (validateDivisionIntegrity teams)) \<le> 1"
    by (simp add: validateDivisionIntegrity_def split: option.splits)
qed

section \<open>Properties of the team reference validation\<close>

subsection \<open>Objects filled key by key\<close>

lemma foldl_update_other:
  "k \<notin> key ` set xs \<Longrightarrow>
   map_of (foldl (\<lambda>m x. AList.update (key x) (val x) m) m0 xs) k = map_of m0 k"
  by (induction xs arbitrary: m0) (auto simp: update_conv')

lemma foldl_update_lookup:
  "distinct (map key xs) \<Longrightarrow> x \<in> set xs \<Longrightarrow>
   map_of (foldl (\<lambda>m x. AList.update (key x) (val x) m) m0 xs) (key x) = Some (val x)"
proof (induction xs arbitrary: m0)
  case Nil
  then show ?case by simp
next
  case (Cons y ys)
  show ?case
  proof (cases "x = y")
    case True
    with Cons.prems have "key x \<notin> key ` set ys" by auto
    then show ?thesis
      using True by (simp add: foldl_update_other update_conv')
  next
    case False
    with Cons.prems have "x \<in> set ys" "distinct (map key ys)" by auto
    then show ?thesis
      using Cons.IH by simp
  qed
qed

lemma set_AList_update:
  "(k, v) \<in> set (AList.update k' v' al) \<Longrightarrow> (k, v) = (k', v') \<or> (k, v) \<in> set al"
  by (induction al) (auto split: if_splits)

lemma foldl_update_entries:
  "(k, v) \<in> set (foldl (\<lambda>m x. AList.update (key x) (val x) m) m0 xs) \<Longrightarrow>
   (k, v) \<in> set m0 \<or> (\<exists>x \<in> set xs. k = key x \<and> v = val x)"
proof (induction xs arbitrary: m0)
  case Nil
  then show ?case by simp
next
  case (Cons y ys)
  from Cons.prems have
    "(k, v) \<in> set (foldl (\<lambda>m x. AList.update (key x) (val x) m)
       (AList.update (key y) (val y) m0) ys)"
    by simp
  from Cons.IH [OF this] show ?case
    using set_AList_update [of k v "key y" "val y" m0] by auto
qed

lemma set_Object_values: "set (Object_values obj) = snd ` set obj"
  by (auto simp: Object_values_def image_iff)

lemma set_insertByCompare: "set (insertByCompare c x ys) = insert x (set ys)"
  by (induction ys) auto

lemma set_Array_sort: "set (Array_sort c xs) = set xs"
  unfolding Array_sort_def by (induction xs) (simp_all add: set_insertByCompare)

lemma teamId_enhanceTeam: "teamId (enhanceTeam store team) = teamId team"
  by (simp add: enhanceTeam_def split: option.splits)

subsection \<open>The two passes\<close>

lemma getEnhancedTeamForId_sorted:
  "getEnhancedTeamForId (snd (getEnhancedLatestTeams lc store teamList)) tid =
   getEnhancedTeamForId teamList tid"
  by (simp add: getEnhancedLatestTeams_def getEnhancedTeamForId_def Let_def
      split: option.splits)

text \<open>
  In a list made by \<^const>\<open>createEnhancedTeamList\<close> from teams with pairwise different ids,
  every entry of the index is the entry of one enhanced team, and the lookup by the entry's id
  returns that team.
\<close>

lemma searchEntries_created:
  assumes created: "teamList = fst (createEnhancedTeamList store0 teams g)"
    and d: "distinct (map teamId teams)"
    and e: "e \<in> set (searchEntries lc store teamList)"
  shows "\<exists>t \<in> set (enhancedTeams teamList).
           searchEntry store t = e \<and> getEnhancedTeamForId teamList (entryId e) = Some t"
proof -
  let ?s' = "autoDetectExpansionTeams store0 teams"
  have en: "enhancedTeams teamList = map (enhanceTeam ?s') teams"
    and tm: "teamMap teamList =
      foldl (\<lambda>m team. AList.update (teamId team) team m) [] (enhancedTeams teamList)"
    by (simp_all add: created createEnhancedTeamList_def enhanceTeamData_def Let_def)
  have ids: "map teamId (enhancedTeams teamList) = map teamId teams"
    by (simp add: en teamId_enhanceTeam)
  from e obtain k where
    "(k, e) \<in> set (createEnhancedTeamSearchIndex store
       (fst (getEnhancedLatestTeams lc store teamList)))"
    by (auto simp: searchEntries_def set_Object_values)
  then obtain t where t: "t \<in> set (fst (getEnhancedLatestTeams lc store teamList))"
    and et: "e = searchEntry store t"
    unfolding createEnhancedTeamSearchIndex_def
    by (auto dest!: foldl_update_entries)
  from t have mem: "t \<in> set (enhancedTeams teamList)"
    by (simp add: getEnhancedLatestTeams_def Let_def sortTeamsForDivisionDisplay_def
        set_Array_sort)
  have "map_of (teamMap teamList) (teamId t) = Some t"
    unfolding tm
    using foldl_update_lookup [of teamId "enhancedTeams teamList" t "\<lambda>team. team" "[]"] mem d ids
    by simp
  then have "getEnhancedTeamForId teamList (entryId e) = Some t"
    by (simp add: getEnhancedTeamForId_def et searchEntry_def)
  with mem et show ?thesis by blast
qed

lemma find_filter_hd: "filter P xs = e # others \<Longrightarrow> find P xs = Some e"
  by (induction xs) (auto split: if_splits)

lemma validateEnhancedTeamReference_passes:
  "fst (validateEnhancedTeamReference lc store q teamList) =
     (case find (exactMatch q) (searchEntries lc store teamList) of
        Some exact \<Rightarrow> map_option foundTeam (getEnhancedTeamForId teamList (entryId exact))
      | None \<Rightarrow>
          (let pm = filter (partialMatch q) (searchEntries lc store teamList)
           in if length pm = 1 then
                map_option foundTeam (getEnhancedTeamForId teamList (entryId (hd pm)))
              else if length pm > 1 then Some (multipleTeamsError q pm)
              else Some (noTeamError q)))"
proof -
  obtain teams tl' where g: "getEnhancedLatestTeams lc store teamList = (teams, tl')"
    by (cases "getEnhancedLatestTeams lc store teamList")
  have l: "getEnhancedTeamForId tl' tid = getEnhancedTeamForId teamList tid" for tid
    using getEnhancedTeamForId_sorted [of lc store teamList tid] g by simp
  show ?thesis
    by (auto simp: validateEnhancedTeamReference_def searchEntries_def g l Let_def
        split: option.splits)
qed

text \<open>
  C5. When the exact pass finds nothing: two or more partial matches give an error that lists
  the display names of all of them, and no team; no partial match gives an error that quotes
  the reference; exactly one partial match gives the team looked up by that entry's id, which
  for a list created from teams with pairwise different ids is the enhanced team the entry
  was built from.
\<close>

theorem validateEnhancedTeamReference_partial_pass:
  assumes "find (exactMatch q) (searchEntries lc store teamList) = None"
  shows
    "let partialMatches = filter (partialMatch q) (searchEntries lc store teamList);
         result = fst (validateEnhancedTeamReference lc store q teamList)
     in (2 \<le> length partialMatches \<longrightarrow>
           result = Some \<lparr>valid = False, resultTeam = None,
             resultError = Some (''Multiple teams found for '' @ [CHR 0x22] @ q @ [CHR 0x22] @
               '': '' @ join '', '' (map entryDisplayName partialMatches) @
               ''. Please be more specific.'')\<rparr>) \<and>
        (partialMatches = [] \<longrightarrow>
           result = Some \<lparr>valid = False, resultTeam = None,
             resultError = Some (''No team found for '' @ [CHR 0x22] @ q @ [CHR 0x22] @
               ''. Please check the team name and try again.'')\<rparr>) \<and>
        (\<forall>e. partialMatches = [e] \<longrightarrow>
           result = map_option foundTeam (getEnhancedTeamForId teamList (entryId e)) \<and>
           (\<forall>store0 teams g.
              teamList = fst (createEnhancedTeamList store0 teams g) \<and>
              distinct (map teamId teams) \<longrightarrow>
              (\<exists>t \<in> set (enhancedTeams teamList). searchEntry store t = e \<and>
                 result = Some \<lparr>valid = True, resultTeam = Some t, resultError = None\<rparr>)))"
proof -
  let ?pm = "filter (partialMatch q) (searchEntries lc store teamList)"
  let ?result = "fst (validateEnhancedTeamReference lc store q teamList)"
  have many: "?result = Some (multipleTeamsError q ?pm)" if "2 \<le> length ?pm"
    using that assms by (simp add: validateEnhancedTeamReference_passes Let_def)
  have none: "?result = Some (noTeamError q)" if "?pm = []"
    using that assms by (simp add: validateEnhancedTeamReference_passes Let_def)
  have one: "?result = map_option foundTeam (getEnhancedTeamForId teamList (entryId e))"
    if "?pm = [e]" for e
    using that assms by (simp add: validateEnhancedTeamReference_passes Let_def)
  have that_team: "\<exists>t \<in> set (enhancedTeams teamList). searchEntry store t = e \<and>
      ?result = Some \<lparr>valid = True, resultTeam = Some t, resultError = None\<rparr>"
    if pm: "?pm = [e]" and created: "teamList = fst (createEnhancedTeamList store0 teams g)"
      and d: "distinct (map teamId teams)" for e store0 teams g
  proof -
    have "e \<in> set ?pm" by (simp add: pm)
    then have "e \<in> set (searchEntries lc store teamList)" by simp
    from searchEntries_created [OF created d this] obtain t where
      "t \<in> set (enhancedTeams teamList)" "searchEntry store t = e"
      "getEnhancedTeamForId teamList (entryId e) = Some t"
      by blast
    then show ?thesis
      using one [OF pm] by (auto simp: foundTeam_def)
  qed
  show ?thesis
    unfolding Let_def
    using many none one that_team
    by (simp add: multipleTeamsError_def noTeamError_def) blast
qed

theorem validateEnhancedTeamReference_partial_pass_witness:
  "fst (validateEnhancedTeamReference codeUnitCompare (snd dragonsLeague) ''hawks''
       (fst dragonsLeague)) =
     Some \<lparr>valid = False, resultTeam = None,
       resultError = Some (''Multiple teams found for '' @ [CHR 0x22] @ ''hawks'' @ [CHR 0x22] @
         '': Night Hawks, Snowhawks. Please be more specific.'')\<rparr> \<and>
   fst (validateEnhancedTeamReference codeUnitCompare (snd dragonsLeague) ''Bears''
       (fst dragonsLeague)) =
     Some \<lparr>valid = False, resultTeam = None,
       resultError = Some (''No team found for '' @ [CHR 0x22] @ ''Bears'' @ [CHR 0x22] @
         ''. Please check the team name and try again.'')\<rparr> \<and>
   (\<exists>t \<in> set (enhancedTeams (fst dragonsLeague)).
      cityName t = ''Chicago'' \<and>
      fst (validateEnhancedTeamReference codeUnitCompare (snd dragonsLeague) ''chi''
        (fst dragonsLeague)) =
      Some \<lparr>valid = True, resultTeam = Some t, resultError = None\<rparr>)"
proof -
  let ?entries = "searchEntries codeUnitCompare (snd dragonsLeague) (fst dragonsLeague)"
  have exact: "find (exactMatch ''hawks'') ?entries = None"
    "find (exactMatch ''Bears'') ?entries = None"
    "find (exactMatch ''chi'') ?entries = None"
    by code_simp+
  have hawks: "2 \<le> length (filter (partialMatch ''hawks'') ?entries)"
    "map entryDisplayName (filter (partialMatch ''hawks'') ?entries) =
       [''Night Hawks'', ''Snowhawks'']"
    by code_simp+
  have bears': "filter (partialMatch ''Bears'') ?entries = []"
    by code_simp
  have chi: "filter (partialMatch ''chi'') ?entries =
      [searchEntry (snd dragonsLeague) (enhancedTeams (fst dragonsLeague) ! 0)]"
    by code_simp
  have city: "entryCityName (searchEntry (snd dragonsLeague) (enhancedTeams (fst dragonsLeague) ! 0)) = ''Chicago''"
    by code_simp
  have created: "fst dragonsLeague =
      fst (createEnhancedTeamList dragonsStore [bears, nightHawks, snowhawks] (\<lambda>tid. None))"
    by (simp add: dragonsLeague_def)
  have ids: "distinct (map teamId [bears, nightHawks, snowhawks])"
    by code_simp
  from validateEnhancedTeamReference_partial_pass [OF exact(1)] hawks
  have 1: "fst (validateEnhancedTeamReference codeUnitCompare (snd dragonsLeague) ''hawks''
       (fst dragonsLeague)) =
     Some \<lparr>valid = False, resultTeam = None,
       resultError = Some (''Multiple teams found for '' @ [CHR 0x22] @ ''hawks'' @ [CHR 0x22] @
         '': Night Hawks, Snowhawks. Please be more specific.'')\<rparr>"
    by (simp add: Let_def)
  from validateEnhancedTeamReference_partial_pass [OF exact(2)] bears'
  have 2: "fst (validateEnhancedTeamReference codeUnitCompare (snd dragonsLeague) ''Bears''
       (fst dragonsLeague)) =
     Some \<lparr>valid = False, resultTeam = None,
       resultError = Some (''No team found for '' @ [CHR 0x22] @ ''Bears'' @ [CHR 0x22] @
         ''. Please check the team name and try again.'')\<rparr>"
    by (simp add: Let_def)
  from validateEnhancedTeamReference_partial_pass [OF exact(3)] chi created ids
  obtain t where "t \<in> set (enhancedTeams (fst dragonsLeague))"
    "searchEntry (snd dragonsLeague) t =
       searchEntry (snd dragonsLeague) (enhancedTeams (fst dragonsLeague) ! 0)"
    "fst (validateEnhancedTeamReference codeUnitCompare (snd dragonsLeague) ''chi''
        (fst dragonsLeague)) =
      Some \<lparr>valid = True, resultTeam = Some t, resultError = None\<rparr>"
    unfolding Let_def by blast
  moreover from this(2) city have "cityName t = ''Chicago''"
    by (simp add: searchEntry_def)
  ultimately show ?thesis
    using 1 2 by blast
qed

text \<open>
  C9. When one or more entries match the reference exactly, the first of them in the order of
  enumeration decides: the result is the team looked up by that entry's id, a success, however
  many further entries match; no ambiguity is reported. In a list created from teams with
  pairwise different ids that team is the enhanced team the first matching entry was built
  from.
\<close>

theorem validateEnhancedTeamReference_exact_pass:
  assumes "filter (exactMatch q) (searchEntries lc store teamList) = e # others"
  shows
    "find (exactMatch q) (searchEntries lc store teamList) = Some e \<and>
     fst (validateEnhancedTeamReference lc store q teamList) =
       map_option foundTeam (getEnhancedTeamForId teamList (entryId e)) \<and>
     (\<forall>store0 teams g.
        teamList = fst (createEnhancedTeamList store0 teams g) \<and>
        distinct (map teamId teams) \<longrightarrow>
        (\<exists>t \<in> set (enhancedTeams teamList). searchEntry store t = e \<and>
           fst (validateEnhancedTeamReference lc store q teamList) =
             Some \<lparr>valid = True, resultTeam = Some t, resultError = None\<rparr>))"
proof -
  have first: "find (exactMatch q) (searchEntries lc store teamList) = Some e"
    using assms by (rule find_filter_hd)
  then have looked: "fst (validateEnhancedTeamReference lc store q teamList) =
       map_option foundTeam (getEnhancedTeamForId teamList (entryId e))"
    by (simp add: validateEnhancedTeamReference_passes)
  have "\<exists>t \<in> set (enhancedTeams teamList). searchEntry store t = e \<and>
           fst (validateEnhancedTeamReference lc store q teamList) =
             Some \<lparr>valid = True, resultTeam = Some t, resultError = None\<rparr>"
    if created: "teamList = fst (createEnhancedTeamList store0 teams g)"
      and d: "distinct (map teamId teams)" for store0 teams g
  proof -
    have "e \<in> set (filter (exactMatch q) (searchEntries lc store teamList))"
      by (simp add: assms)
    then have "e \<in> set (searchEntries lc store teamList)" by simp
    from searchEntries_created [OF created d this] show ?thesis
      using looked by (auto simp: foundTeam_def)
  qed
  with first looked show ?thesis by blast
qed

theorem validateEnhancedTeamReference_exact_pass_witness:
  "map teamId (fst (getEnhancedLatestTeams codeUnitCompare (snd tigersLeague) (fst tigersLeague)))
     = [5, 3] \<and>
   map entryId (filter (exactMatch ''TIGERS'')
     (searchEntries codeUnitCompare (snd tigersLeague) (fst tigersLeague))) = [3, 5] \<and>
   (\<exists>t \<in> set (enhancedTeams (fst tigersLeague)).
      teamId t = 3 \<and> cityName t = ''Dublin'' \<and>
      fst (validateEnhancedTeamReference codeUnitCompare (snd tigersLeague) ''TIGERS''
        (fst tigersLeague)) =
      Some \<lparr>valid = True, resultTeam = Some t, resultError = None\<rparr>)"
proof -
  let ?entries = "searchEntries codeUnitCompare (snd tigersLeague) (fst tigersLeague)"
  let ?dublin = "searchEntry (snd tigersLeague) (enhancedTeams (fst tigersLeague) ! 1)"
  let ?london = "searchEntry (snd tigersLeague) (enhancedTeams (fst tigersLeague) ! 0)"
  have order: "map teamId
      (fst (getEnhancedLatestTeams codeUnitCompare (snd tigersLeague) (fst tigersLeague))) = [5, 3]"
    by code_simp
  have matches: "filter (exactMatch ''TIGERS'') ?entries = ?dublin # [?london]"
    by code_simp
  have ids: "map entryId (filter (exactMatch ''TIGERS'') ?entries) = [3, 5]"
    by code_simp
  have dublin: "entryId ?dublin = 3" "entryCityName ?dublin = ''Dublin''"
    by code_simp+
  have created: "fst tigersLeague =
      fst (createEnhancedTeamList [] [tigersOfLondon, tigersOfDublin] (\<lambda>tid. None))"
    by (simp add: tigersLeague_def)
  have distinct_ids: "distinct (map teamId [tigersOfLondon, tigersOfDublin])"
    by code_simp
  from validateEnhancedTeamReference_exact_pass [OF matches] created distinct_ids
  obtain t where t: "t \<in> set (enhancedTeams (fst tigersLeague))"
    "searchEntry (snd tigersLeague) t = ?dublin"
    "fst (validateEnhancedTeamReference codeUnitCompare (snd tigersLeague) ''TIGERS''
        (fst tigersLeague)) =
      Some \<lparr>valid = True, resultTeam = Some t, resultError = None\<rparr>"
    by blast
  from t(2) dublin have "teamId t = 3" "cityName t = ''Dublin''"
    by (simp_all add: searchEntry_def)
  with t order ids show ?thesis
    by blast
qed

text \<open>
  C2. The specification has the partial pass compare the reference with the original display name and
  the original nickname as well. The filter of the partial pass reads the display name, the
  city name and the nickname of an entry and nothing else; and the entries are built from the
  teams as enhanced, so their original names hold the overlaid names. With the Bears
  registered as the Dragons, the references Dragons and dragons resolve, and the reference
  Bears, the team's original display name, is answered with "No team found".
\<close>

theorem original_name_not_resolved:
  "partialMatch q (entry\<lparr>entryOriginalDisplayName := a, entryOriginalNickName := b\<rparr>) =
     partialMatch q entry \<and>
   map displayName (enhancedTeams (fst dragonsLeague)) =
     [''Dragons'', ''Night Hawks'', ''Snowhawks''] \<and>
   map originalDisplayName (enhancedTeams (fst dragonsLeague)) =
     [Some ''Bears'', Some ''Night Hawks'', Some ''Snowhawks''] \<and>
   map entryOriginalDisplayName
     (searchEntries codeUnitCompare (snd dragonsLeague) (fst dragonsLeague)) =
     [''Night Hawks'', ''Dragons'', ''Snowhawks''] \<and>
   map_option valid (fst (validateEnhancedTeamReference codeUnitCompare (snd dragonsLeague)
     ''Dragons'' (fst dragonsLeague))) = Some True \<and>
   map_option valid (fst (validateEnhancedTeamReference codeUnitCompare (snd dragonsLeague)
     ''dragons'' (fst dragonsLeague))) = Some True \<and>
   fst (validateEnhancedTeamReference codeUnitCompare (snd dragonsLeague) ''Bears''
       (fst dragonsLeague)) =
     Some \<lparr>valid = False, resultTeam = None,
       resultError = Some (''No team found for '' @ [CHR 0x22] @ ''Bears'' @ [CHR 0x22] @
         ''. Please check the team name and try again.'')\<rparr>"
proof (intro conjI)
  show "partialMatch q (entry\<lparr>entryOriginalDisplayName := a, entryOriginalNickName := b\<rparr>) =
     partialMatch q entry"
    by (simp add: partialMatch_def)
qed code_simp+

section \<open>Enhancement leaves its input alone\<close>

lemma those_Some_no_None: "those xs = Some ys \<Longrightarrow> None \<notin> set xs"
  by (induction xs arbitrary: ys) (auto split: option.splits)

lemma those_map_Some: "those (map Some xs) = Some xs"
  by (induction xs) simp_all

lemma readTeam_append: "ref < length h \<Longrightarrow> readTeam (h @ ext) ref = readTeam h ref"
  by (simp add: readTeam_def nth_append)

lemma readTeam_Some_bound: "readTeam h ref = Some team \<Longrightarrow> ref < length h"
  by (simp add: readTeam_def split: if_splits)

lemma readTeamArray_append:
  assumes "readTeamArray h ref = Some teams"
  shows "readTeamArray (h @ ext) ref = Some teams"
proof -
  from assms obtain refs where ref: "ref < length h" and arr: "h ! ref = TeamArray refs"
    and elems: "those (map (readTeam h) refs) = Some teams"
    by (auto simp: readTeamArray_def split: if_splits cell.splits)
  have same: "readTeam (h @ ext) r = readTeam h r" if "r \<in> set refs" for r
  proof -
    from those_Some_no_None [OF elems] that have "readTeam h r \<noteq> None"
      by (metis image_eqI set_map)
    then show ?thesis
      by (auto intro: readTeam_append dest: readTeam_Some_bound)
  qed
  have meq: "map (readTeam (h @ ext)) refs = map (readTeam h) refs"
    by (rule map_cong [OF refl]) (rule same)
  have "those (map (readTeam (h @ ext)) refs) = Some teams"
    unfolding meq by (rule elems)
  with ref arr show ?thesis
    by (simp add: readTeamArray_def nth_append)
qed

lemma readTeam_created:
  "map (readTeam (h @ map TeamObject created @ ext)) [length h ..< length h + length created] =
   map Some created"
  by (rule nth_equalityI) (simp_all add: readTeam_def nth_append)

text \<open>
  C8. Enhancement never writes to what it is given: run on the address of an array of teams, it
  returns; every cell that existed before, so the input array and every field of every input
  team, is the same after the call; the outcome is a new array, at a new address, of new team
  objects at new addresses, which hold the enhanced teams.
\<close>

theorem enhanceTeamDataRef_frame:
  assumes "readTeamArray h teamsRef = Some teams"
  shows "\<exists>resultRef h'.
     enhanceTeamDataRef h store teamsRef =
       Some (resultRef, h', snd (enhanceTeamData store teams)) \<and>
     take (length h) h' = h \<and>
     readTeamArray h' teamsRef = Some teams \<and>
     length h \<le> resultRef \<and>
     readTeamArray h' resultRef = Some (fst (enhanceTeamData store teams)) \<and>
     (\<exists>refs. h' ! resultRef = TeamArray refs \<and> distinct refs \<and>
        (\<forall>ref \<in> set refs. length h \<le> ref \<and> ref < length h'))"
proof -
  let ?store' = "autoDetectExpansionTeams store teams"
  let ?created = "map (enhanceTeam ?store') teams"
  let ?refs = "[length h ..< length h + length ?created]"
  let ?h' = "h @ map TeamObject ?created @ [TeamArray ?refs]"
  let ?resultRef = "length h + length ?created"
  have run: "enhanceTeamDataRef h store teamsRef =
      Some (?resultRef, ?h', snd (enhanceTeamData store teams))"
    using assms by (simp add: enhanceTeamDataRef_def enhanceTeamData_def Let_def)
  have frame: "take (length h) ?h' = h"
    by simp
  have input: "readTeamArray ?h' teamsRef = Some teams"
    using assms by (rule readTeamArray_append)
  have cell: "?h' ! ?resultRef = TeamArray ?refs"
    by (simp add: nth_append)
  have result: "readTeamArray ?h' ?resultRef = Some (fst (enhanceTeamData store teams))"
  proof -
    have "those (map (readTeam ?h') ?refs) = Some ?created"
      unfolding readTeam_created by (rule those_map_Some)
    then show ?thesis
      by (simp add: readTeamArray_def nth_append enhanceTeamData_def Let_def)
  qed
  have fresh: "distinct ?refs \<and> (\<forall>ref \<in> set ?refs. length h \<le> ref \<and> ref < length ?h')"
    by simp
  from run frame input result cell fresh show ?thesis
    by (intro exI conjI) (assumption | simp)+
qed

theorem enhanceTeamDataRef_frame_witness:
  "readTeamArray exampleHeap 2 = Some [nightHawks, bears] \<and>
   (\<exists>resultRef h'.
      enhanceTeamDataRef exampleHeap dragonsStore 2 =
        Some (resultRef, h', snd (enhanceTeamData dragonsStore [nightHawks, bears])) \<and>
      take (length exampleHeap) h' = exampleHeap \<and>
      readTeamArray h' 2 = Some [nightHawks, bears] \<and>
      length exampleHeap \<le> resultRef \<and>
      readTeamArray h' resultRef = Some (fst (enhanceTeamData dragonsStore [nightHawks, bears]))) \<and>
   map displayName (fst (enhanceTeamData dragonsStore [nightHawks, bears])) =
     [''Night Hawks'', ''Dragons'']"
proof -
  have input: "readTeamArray exampleHeap 2 = Some [nightHawks, bears]"
    by code_simp
  have names: "map displayName (fst (enhanceTeamData dragonsStore [nightHawks, bears])) =
     [''Night Hawks'', ''Dragons'']"
    by code_simp
  from enhanceTeamDataRef_frame [OF input, of dragonsStore] input names show ?thesis
    by blast
qed

section \<open>Properties of the display order\<close>

lemma mset_insertByCompare: "mset (insertByCompare c x ys) = add_mset x (mset ys)"
  by (induction ys) simp_all

lemma mset_Array_sort: "mset (Array_sort c xs) = mset xs"
  unfolding Array_sort_def by (induction xs) (simp_all add: mset_insertByCompare)

lemma sorted_insertByCompare:
  assumes total: "\<And>a b. a \<in> S \<Longrightarrow> b \<in> S \<Longrightarrow> c a b \<le> 0 \<or> c b a \<le> 0"
    and trans: "\<And>a b d. a \<in> S \<Longrightarrow> b \<in> S \<Longrightarrow> d \<in> S \<Longrightarrow>
                  c a b \<le> 0 \<Longrightarrow> c b d \<le> 0 \<Longrightarrow> c a d \<le> 0"
    and x: "x \<in> S"
  shows "set ys \<subseteq> S \<Longrightarrow> sorted_wrt (\<lambda>a b. c a b \<le> 0) ys \<Longrightarrow>
         sorted_wrt (\<lambda>a b. c a b \<le> 0) (insertByCompare c x ys)"
proof (induction ys)
  case Nil
  then show ?case by simp
next
  case (Cons y ys)
  from Cons.prems have y: "y \<in> S" and ys: "set ys \<subseteq> S"
    and below: "\<forall>z \<in> set ys. c y z \<le> 0" and rest: "sorted_wrt (\<lambda>a b. c a b \<le> 0) ys"
    by auto
  show ?case
  proof (cases "c x y \<le> 0")
    case True
    have "c x z \<le> 0" if "z \<in> set ys" for z
      using trans [OF x y _ True] that ys below by blast
    with True Cons.prems show ?thesis
      by simp
  next
    case False
    with total [OF x y] have "c y x \<le> 0" by blast
    with False below Cons.IH [OF ys rest] show ?thesis
      by (simp add: set_insertByCompare)
  qed
qed

lemma sorted_Array_sort:
  assumes total: "\<And>a b. a \<in> S \<Longrightarrow> b \<in> S \<Longrightarrow> c a b \<le> 0 \<or> c b a \<le> 0"
    and trans: "\<And>a b d. a \<in> S \<Longrightarrow> b \<in> S \<Longrightarrow> d \<in> S \<Longrightarrow>
                  c a b \<le> 0 \<Longrightarrow> c b d \<le> 0 \<Longrightarrow> c a d \<le> 0"
  shows "set xs \<subseteq> S \<Longrightarrow> sorted_wrt (\<lambda>a b. c a b \<le> 0) (Array_sort c xs)"
proof (induction xs)
  case Nil
  then show ?case by (simp add: Array_sort_def)
next
  case (Cons x xs)
  have step: "Array_sort c (x # xs) = insertByCompare c x (Array_sort c xs)"
    by (simp add: Array_sort_def)
  from Cons.prems have "x \<in> S" "set (Array_sort c xs) \<subseteq> S"
    by (simp_all add: set_Array_sort)
  with Cons show ?case
    unfolding step by (intro sorted_insertByCompare [of S c, OF total trans]) simp_all
qed

lemma compareForDivisionDisplay_total:
  assumes "consistentCompare lc"
  shows "compareForDivisionDisplay lc store a b \<le> 0 \<or> compareForDivisionDisplay lc store b a \<le> 0"
  using assms unfolding consistentCompare_def compareForDivisionDisplay_def by auto

lemma compareForDivisionDisplay_trans:
  assumes "consistentCompare lc" and told: "divisionNamesDistinguished lc teams"
    and mem: "a \<in> set teams" "b \<in> set teams" "d \<in> set teams"
    and ab: "compareForDivisionDisplay lc store a b \<le> 0"
    and bd: "compareForDivisionDisplay lc store b d \<le> 0"
  shows "compareForDivisionDisplay lc store a d \<le> 0"
proof -
  from assms(1) have trans: "lc x y \<le> 0 \<Longrightarrow> lc y z \<le> 0 \<Longrightarrow> lc x z \<le> 0" for x y z
    unfolding consistentCompare_def by blast
  from told mem have apart:
    "lc (divName a) (divName b) \<le> 0 \<Longrightarrow> lc (divName b) (divName a) \<le> 0 \<Longrightarrow>
       divName a = divName b"
    unfolding divisionNamesDistinguished_def by blast
  show ?thesis
  proof (cases "divName a = divName d")
    case False
    with ab bd show ?thesis
      unfolding compareForDivisionDisplay_def
      by (auto split: if_splits intro: trans)
  next
    case True
    show ?thesis
    proof (cases "divName a = divName b")
      case same: True
      with True ab bd show ?thesis
        unfolding compareForDivisionDisplay_def
        by (auto split: if_splits intro: trans)
    next
      case False
      with True ab bd have "lc (divName a) (divName b) \<le> 0" "lc (divName b) (divName a) \<le> 0"
        unfolding compareForDivisionDisplay_def by (auto split: if_splits)
      with apart False show ?thesis by blast
    qed
  qed
qed

lemma compareForDivisionDisplay_keys:
  assumes "consistentCompare lc" and "compareForDivisionDisplay lc store a b \<le> 0"
  shows "lc (divName a) (divName b) \<le> 0 \<and>
     (divName a = divName b \<longrightarrow>
        lc (getTeamDisplayName store (teamId a) (displayName a))
           (getTeamDisplayName store (teamId b) (displayName b)) \<le> 0)"
proof -
  from assms(1) have "lc x x \<le> 0" for x
    unfolding consistentCompare_def by blast
  with assms(2) show ?thesis
    unfolding compareForDivisionDisplay_def by (auto split: if_splits)
qed

lemma getTeamDisplayName_enhanceTeam:
  "getTeamDisplayName store (teamId (enhanceTeam store team)) (displayName (enhanceTeam store team))
     = displayName (enhanceTeam store team)"
  by (simp add: getTeamDisplayName_def enhanceTeam_def split: option.splits)

lemma linearCompare_codeUnitCompare: "linearCompare codeUnitCompare"
  unfolding linearCompare_def codeUnitCompare_def by auto

lemma consistentCompare_codeUnitCompare: "consistentCompare codeUnitCompare"
  unfolding consistentCompare_def codeUnitCompare_def by auto

lemma divisionNamesDistinguished_codeUnitCompare:
  "divisionNamesDistinguished codeUnitCompare teams"
  unfolding divisionNamesDistinguished_def codeUnitCompare_def by (auto split: if_splits)

lemma consistentCompare_softHyphenCompare: "consistentCompare softHyphenCompare"
  unfolding consistentCompare_def softHyphenCompare_def codeUnitCompare_def by auto

text \<open>
  C4 (as amended). Let \<^verbatim>\<open>localeCompare\<close> be a consistent comparison under which no two
  different division names of the roster compare equal. Then the display accessor returns the
  enhanced teams, rearranged and stored back in that order: sorted by division name
  (\<^verbatim>\<open>divName\<close>) ascending and, within one division name, by the overlaid display name
  ascending. The overlaid display name is the one the registry gives at the time of the call
  (the expansion name of a registered team, the team's display name otherwise); for a list
  just created, with the registry the creation left, it is the enhanced team's own display
  name.
\<close>

theorem getEnhancedLatestTeams_sorted:
  assumes "consistentCompare localeCompare"
    and "divisionNamesDistinguished localeCompare (enhancedTeams teamList)"
  shows
    "mset (fst (getEnhancedLatestTeams localeCompare store teamList)) =
       mset (enhancedTeams teamList) \<and>
     enhancedTeams (snd (getEnhancedLatestTeams localeCompare store teamList)) =
       fst (getEnhancedLatestTeams localeCompare store teamList) \<and>
     sorted_wrt
       (\<lambda>a b. localeCompare (divName a) (divName b) \<le> 0 \<and>
          (divName a = divName b \<longrightarrow>
             localeCompare (getTeamDisplayName store (teamId a) (displayName a))
                           (getTeamDisplayName store (teamId b) (displayName b)) \<le> 0))
       (fst (getEnhancedLatestTeams localeCompare store teamList)) \<and>
     (\<forall>store0 teams g.
        (teamList, store) = createEnhancedTeamList store0 teams g \<longrightarrow>
        sorted_wrt
          (\<lambda>a b. localeCompare (divName a) (divName b) \<le> 0 \<and>
             (divName a = divName b \<longrightarrow> localeCompare (displayName a) (displayName b) \<le> 0))
          (fst (getEnhancedLatestTeams localeCompare store teamList)))"
proof -
  let ?c = "compareForDivisionDisplay localeCompare store"
  let ?sorted = "fst (getEnhancedLatestTeams localeCompare store teamList)"
  have eq: "?sorted = Array_sort ?c (enhancedTeams teamList)"
    by (simp add: getEnhancedLatestTeams_def sortTeamsForDivisionDisplay_def Let_def)
  have perm: "mset ?sorted = mset (enhancedTeams teamList)"
    unfolding eq by (rule mset_Array_sort)
  have inplace: "enhancedTeams (snd (getEnhancedLatestTeams localeCompare store teamList)) = ?sorted"
    by (simp add: getEnhancedLatestTeams_def Let_def)
  have "sorted_wrt (\<lambda>a b. ?c a b \<le> 0) (Array_sort ?c (enhancedTeams teamList))"
  proof (rule sorted_Array_sort [of "set (enhancedTeams teamList)"])
    show "?c a b \<le> 0 \<or> ?c b a \<le> 0" for a b
      by (rule compareForDivisionDisplay_total [OF assms(1)])
    show "?c a d \<le> 0"
      if "a \<in> set (enhancedTeams teamList)" "b \<in> set (enhancedTeams teamList)"
        "d \<in> set (enhancedTeams teamList)" "?c a b \<le> 0" "?c b d \<le> 0" for a b d
      using assms that by (rule compareForDivisionDisplay_trans)
    show "set (enhancedTeams teamList) \<subseteq> set (enhancedTeams teamList)"
      by simp
  qed
  then have "sorted_wrt (\<lambda>a b. ?c a b \<le> 0) ?sorted"
    unfolding eq .
  then have by_keys: "sorted_wrt
       (\<lambda>a b. localeCompare (divName a) (divName b) \<le> 0 \<and>
          (divName a = divName b \<longrightarrow>
             localeCompare (getTeamDisplayName store (teamId a) (displayName a))
                           (getTeamDisplayName store (teamId b) (displayName b)) \<le> 0)) ?sorted"
    by (rule sorted_wrt_mono_rel [rotated]) (rule compareForDivisionDisplay_keys [OF assms(1)])
  have by_names: "sorted_wrt
          (\<lambda>a b. localeCompare (divName a) (divName b) \<le> 0 \<and>
             (divName a = divName b \<longrightarrow> localeCompare (displayName a) (displayName b) \<le> 0))
          ?sorted"
    if created: "(teamList, store) = createEnhancedTeamList store0 teams g" for store0 teams g
  proof -
    from created have "enhancedTeams teamList = map (enhanceTeam store) teams"
      by (auto simp: createEnhancedTeamList_def enhanceTeamData_def Let_def)
    then have "set ?sorted = enhanceTeam store ` set teams"
      unfolding eq by (simp add: set_Array_sort)
    then have "getTeamDisplayName store (teamId a) (displayName a) = displayName a"
      if "a \<in> set ?sorted" for a
      using that getTeamDisplayName_enhanceTeam by auto
    with by_keys show ?thesis
      by (auto elim!: sorted_wrt_mono_rel [rotated])
  qed
  from perm inplace by_keys by_names show ?thesis
    by blast
qed

theorem getEnhancedLatestTeams_sorted_witness:
  "consistentCompare codeUnitCompare \<and>
   divisionNamesDistinguished codeUnitCompare (enhancedTeams (fst wizardsLeague)) \<and>
   map displayName (enhancedTeams (fst wizardsLeague)) = [''Wizards'', ''Cowboys'', ''Jets''] \<and>
   map displayName
     (fst (getEnhancedLatestTeams codeUnitCompare (snd wizardsLeague) (fst wizardsLeague))) =
     [''Jets'', ''Wizards'', ''Cowboys''] \<and>
   map divName
     (fst (getEnhancedLatestTeams codeUnitCompare (snd wizardsLeague) (fst wizardsLeague))) =
     [''AFC East'', ''AFC East'', ''NFC East''] \<and>
   mset (fst (getEnhancedLatestTeams codeUnitCompare (snd wizardsLeague) (fst wizardsLeague))) =
     mset (enhancedTeams (fst wizardsLeague)) \<and>
   sorted_wrt
     (\<lambda>a b. codeUnitCompare (divName a) (divName b) \<le> 0 \<and>
        (divName a = divName b \<longrightarrow> codeUnitCompare (displayName a) (displayName b) \<le> 0))
     (fst (getEnhancedLatestTeams codeUnitCompare (snd wizardsLeague) (fst wizardsLeague)))"
proof -
  have created: "(fst wizardsLeague, snd wizardsLeague) =
      createEnhancedTeamList (registerExpansionTeam [] 2 ''Wizards'' ''Bills'' 5 1)
        [bills, cowboys, jets] (\<lambda>tid. None)"
    by (simp add: wizardsLeague_def)
  have before: "map displayName (enhancedTeams (fst wizardsLeague)) =
      [''Wizards'', ''Cowboys'', ''Jets'']"
    by code_simp
  have names: "map displayName
     (fst (getEnhancedLatestTeams codeUnitCompare (snd wizardsLeague) (fst wizardsLeague))) =
     [''Jets'', ''Wizards'', ''Cowboys'']"
    by code_simp
  have divisions: "map divName
     (fst (getEnhancedLatestTeams codeUnitCompare (snd wizardsLeague) (fst wizardsLeague))) =
     [''AFC East'', ''AFC East'', ''NFC East'']"
    by code_simp
  from getEnhancedLatestTeams_sorted [OF consistentCompare_codeUnitCompare
      divisionNamesDistinguished_codeUnitCompare,
      where store = "snd wizardsLeague" and teamList = "fst wizardsLeague"]
    created consistentCompare_codeUnitCompare
    divisionNamesDistinguished_codeUnitCompare [of "enhancedTeams (fst wizardsLeague)"]
    before names divisions
  show ?thesis
    by blast
qed

text \<open>
  The condition on the division names is needed. Under the comparison that ignores soft
  hyphens, the division names East and East followed by a soft hyphen compare equal; the
  accessor then leaves Zed before Alpha, two teams of the one division East.
\<close>

lemma display_order_needs_distinguished_names:
  "consistentCompare softHyphenCompare \<and>
   \<not> divisionNamesDistinguished softHyphenCompare (enhancedTeams (fst softHyphenLeague)) \<and>
   map displayName
     (fst (getEnhancedLatestTeams softHyphenCompare (snd softHyphenLeague) (fst softHyphenLeague))) =
     [''Zed'', ''Mid'', ''Alpha''] \<and>
   map divName
     (fst (getEnhancedLatestTeams softHyphenCompare (snd softHyphenLeague) (fst softHyphenLeague))) =
     [''East'', ''East'' @ [CHR 0xAD], ''East''] \<and>
   softHyphenCompare ''Zed'' ''Alpha'' = 1"
proof (intro conjI)
  show "consistentCompare softHyphenCompare"
    by (rule consistentCompare_softHyphenCompare)
  show "\<not> divisionNamesDistinguished softHyphenCompare (enhancedTeams (fst softHyphenLeague))"
    by code_simp
qed code_simp+

text \<open>
  C4 as stated fails: the teams are not ordered by \<^verbatim>\<open>divisionId\<close>. In the example the AFC East
  carries division id 5 and the NFC East division id 2, and the AFC East comes first.
\<close>

theorem getEnhancedLatestTeams_not_by_divisionId:
  "\<not> (\<forall>localeCompare store teamList. linearCompare localeCompare \<longrightarrow>
        sorted (map divisionId (fst (getEnhancedLatestTeams localeCompare store teamList))))"
proof
  assume "\<forall>localeCompare store teamList. linearCompare localeCompare \<longrightarrow>
        sorted (map divisionId (fst (getEnhancedLatestTeams localeCompare store teamList)))"
  with linearCompare_codeUnitCompare
  have "sorted (map divisionId
      (fst (getEnhancedLatestTeams codeUnitCompare (snd wizardsLeague) (fst wizardsLeague))))"
    by blast
  moreover have "map divisionId
      (fst (getEnhancedLatestTeams codeUnitCompare (snd wizardsLeague) (fst wizardsLeague))) =
      [5, 5, 2]"
    by code_simp
  ultimately show False
    by simp
qed

end
